theory Spec2Isabelle
  imports Main
begin

section \<open>The remote memory service\<close>

text \<open>
  \<^verbatim>\<open>memobase_client.py\<close> talks to the memory service through an
  \<^verbatim>\<open>AsyncMemobaseClient\<close> and through the user object that \<^verbatim>\<open>get_user\<close> returns.
  Both belong to an external package, so the model takes them as a parameter: a record of
  the six remote methods the manager calls, each a transition of some remote state \<open>'r\<close>
  that either returns a value or raises. \<open>'h\<close> is the type of user objects.

  A remote failure is an instance of Python's \<^verbatim>\<open>Exception\<close>, which is what
  \<^verbatim>\<open>except Exception\<close> catches. \<^verbatim>\<open>AttributeError\<close> is the exception Python raises for
  a method call on \<^verbatim>\<open>None\<close>.
\<close>

datatype exn = Exception string | AttributeError string

type_synonym metadata = "(string \<times> string) list"

type_synonym message = "(string \<times> string) list"

datatype chat_blob = ChatBlob (messages: "message list")

record ('r, 'h) client =
  ping :: "'r \<Rightarrow> (exn + bool) \<times> 'r"
  get_user :: "string \<Rightarrow> 'r \<Rightarrow> (exn + 'h) \<times> 'r"
  add_user :: "metadata \<Rightarrow> 'r \<Rightarrow> (exn + string) \<times> 'r"
  user_insert :: "'h \<Rightarrow> chat_blob \<Rightarrow> 'r \<Rightarrow> (exn + unit) \<times> 'r"
  user_context :: "'h \<Rightarrow> int \<Rightarrow> string list option \<Rightarrow> 'r \<Rightarrow> (exn + string) \<times> 'r"
  user_flush :: "'h \<Rightarrow> 'r \<Rightarrow> (exn + unit) \<times> 'r"

section \<open>Observable effects\<close>

text \<open>
  Every remote call (with its outcome), every \<^verbatim>\<open>LOGGER\<close> call (level, format string,
  arguments) and every \<^verbatim>\<open>asyncio.sleep\<close> is appended to a trace, oldest first.
\<close>

datatype 'h call =
    Ping
  | GetUser string
  | AddUser metadata
  | Insert 'h chat_blob
  | Context 'h int "string list option"
  | Flush 'h

datatype 'h rval = VBool bool | VUser 'h | VStr string | VNone

datatype level = DEBUG | INFO | WARNING | ERROR

datatype log_arg = ArgStr string | ArgNone | ArgInt int | ArgExn exn

datatype 'h event =
    Call "'h call" "exn + 'h rval"
  | Log level string "log_arg list"
  | Sleep nat

section \<open>The manager's state\<close>

text \<open>
  \<^verbatim>\<open>MemobaseManager.__init__\<close> sets \<^verbatim>\<open>self.user = None\<close>,
  \<^verbatim>\<open>self.user_id = user_id\<close> and \<^verbatim>\<open>self._connected = False\<close>. The fields
  \<^verbatim>\<open>hass\<close> and \<^verbatim>\<open>client\<close> are never reassigned; the client is the parameter \<open>c\<close>
  of every operation below.
\<close>

record 'h manager =
  user :: "'h option"
  user_id :: "string option"
  connected :: bool

definition init :: "string option \<Rightarrow> 'h manager" where
  "init uid = \<lparr>user = None, user_id = uid, connected = False\<rparr>"

record ('r, 'h) world =
  self :: "'h manager"
  remote :: 'r
  trace :: "'h event list"

type_synonym ('r, 'h, 'a) io = "('r, 'h) world \<Rightarrow> (exn + 'a) \<times> ('r, 'h) world"

subsection \<open>Sequencing, raising and catching\<close>

definition io_return :: "'a \<Rightarrow> ('r, 'h, 'a) io" where
  "io_return a w = (Inr a, w)"

definition io_raise :: "exn \<Rightarrow> ('r, 'h, 'a) io" where
  "io_raise e w = (Inl e, w)"

definition io_bind :: "('r, 'h, 'a) io \<Rightarrow> ('a \<Rightarrow> ('r, 'h, 'b) io) \<Rightarrow> ('r, 'h, 'b) io" where
  "io_bind m f w = (case m w of (Inl e, w') \<Rightarrow> (Inl e, w') | (Inr a, w') \<Rightarrow> f a w')"

definition io_then :: "('r, 'h, 'a) io \<Rightarrow> ('r, 'h, 'b) io \<Rightarrow> ('r, 'h, 'b) io" where
  "io_then m n = io_bind m (\<lambda>_. n)"

definition try_except :: "('r, 'h, 'a) io \<Rightarrow> (exn \<Rightarrow> ('r, 'h, 'a) io) \<Rightarrow> ('r, 'h, 'a) io" where
  "try_except m handler w = (case m w of (Inl e, w') \<Rightarrow> handler e w' | (Inr a, w') \<Rightarrow> (Inr a, w'))"

subsection \<open>Primitive effects\<close>

definition emit :: "'h event \<Rightarrow> ('r, 'h, unit) io" where
  "emit ev w = (Inr (), w\<lparr>trace := trace w @ [ev]\<rparr>)"

definition log :: "level \<Rightarrow> string \<Rightarrow> log_arg list \<Rightarrow> ('r, 'h, unit) io" where
  "log lvl fmt args = emit (Log lvl fmt args)"

definition sleep :: "nat \<Rightarrow> ('r, 'h, unit) io" where
  "sleep n = emit (Sleep n)"

definition await :: "'h call \<Rightarrow> ('a \<Rightarrow> 'h rval) \<Rightarrow> ('r \<Rightarrow> (exn + 'a) \<times> 'r) \<Rightarrow> ('r, 'h, 'a) io" where
  "await cl wrap f w =
     (case f (remote w) of
        (res, r') \<Rightarrow> (res, w\<lparr>remote := r', trace := trace w @ [Call cl (map_sum id wrap res)]\<rparr>))"

definition gets :: "('h manager \<Rightarrow> 'a) \<Rightarrow> ('r, 'h, 'a) io" where
  "gets f w = (Inr (f (self w)), w)"

definition modify :: "('h manager \<Rightarrow> 'h manager) \<Rightarrow> ('r, 'h, unit) io" where
  "modify f w = (Inr (), w\<lparr>self := f (self w)\<rparr>)"

definition arg_id :: "string option \<Rightarrow> log_arg" where
  "arg_id uid = (case uid of None \<Rightarrow> ArgNone | Some s \<Rightarrow> ArgStr s)"

text \<open>
  \<^verbatim>\<open>self.user.insert\<close>, \<^verbatim>\<open>self.user.context\<close> and \<^verbatim>\<open>self.user.flush\<close> first read the
  attribute of \<^verbatim>\<open>self.user\<close>; on \<^verbatim>\<open>None\<close> that raises \<^verbatim>\<open>AttributeError\<close> and no
  remote call is made.
\<close>

definition the_user :: "string \<Rightarrow> ('r, 'h, 'h) io" where
  "the_user attr =
     io_bind (gets user) (\<lambda>u.
     case u of None \<Rightarrow> io_raise (AttributeError attr) | Some h \<Rightarrow> io_return h)"

section \<open>The operations of MemobaseManager\<close>

text \<open>
  \<^verbatim>\<open>connect\<close> creates a user in two places (after a failed lookup, and when there is
  no identifier) with the same three statements: \<^verbatim>\<open>add_user\<close>, \<^verbatim>\<open>get_user\<close> of the
  new identifier, and an info log. They are \<open>create_user\<close> here.

  \<^verbatim>\<open>if self.user_id:\<close> is Python truthiness: \<^verbatim>\<open>None\<close> and the empty string both take
  the \<^verbatim>\<open>else\<close> branch. The second test of \<^verbatim>\<open>self._connected\<close> is the one inside
  \<^verbatim>\<open>async with self._connection_lock\<close>; a single caller always gets the lock.
\<close>

definition source_marker :: metadata where
  "source_marker = [(''source'', ''homeassistant'')]"

definition create_user :: "('r, 'h) client \<Rightarrow> ('r, 'h, unit) io" where
  "create_user c =
     io_bind (await (AddUser source_marker) VStr (add_user c source_marker)) (\<lambda>nid.
     io_then (modify (\<lambda>m. m\<lparr>user_id := Some nid\<rparr>))
     (io_bind (await (GetUser nid) VUser (get_user c nid)) (\<lambda>h.
     io_then (modify (\<lambda>m. m\<lparr>user := Some h\<rparr>))
     (log INFO ''Created new Memobase user: %s'' [ArgStr nid]))))"

definition connect :: "('r, 'h) client \<Rightarrow> ('r, 'h, bool) io" where
  "connect c =
     io_bind (gets connected) (\<lambda>cn.
     if cn then io_return True
     else
     io_bind (gets connected) (\<lambda>cn'.
     if cn' then io_return True
     else
       try_except
         (io_bind (await Ping VBool (ping c)) (\<lambda>ok.
          if \<not> ok then
            io_then (log ERROR ''Failed to connect to Memobase'' []) (io_return False)
          else
            io_bind (gets user_id) (\<lambda>uid.
            io_then
              (case uid of
                 None \<Rightarrow> create_user c
               | Some s \<Rightarrow>
                   if s = [] then create_user c
                   else
                     try_except
                       (io_bind (await (GetUser s) VUser (get_user c s)) (\<lambda>h.
                        io_then (modify (\<lambda>m. m\<lparr>user := Some h\<rparr>))
                        (log INFO ''Connected to existing Memobase user: %s'' [ArgStr s])))
                       (\<lambda>err.
                        io_then
                          (log WARNING ''User ID %s not found, creating new user: %s''
                             [ArgStr s, ArgExn err])
                          (create_user c)))
            (io_then (modify (\<lambda>m. m\<lparr>connected := True\<rparr>)) (io_return True)))))
         (\<lambda>err.
          io_then (log ERROR ''Error connecting to Memobase: %s'' [ArgExn err])
          (io_return False))))"

text \<open>
  The block under \<^verbatim>\<open>async with self._connection_lock\<close> on its own: the second test of
  the flag and the \<^verbatim>\<open>try\<close> statement. It is what a caller runs once it holds the lock,
  after it found the flag false in the first test.
\<close>

definition connect_locked :: "('r, 'h) client \<Rightarrow> ('r, 'h, bool) io" where
  "connect_locked c =
     io_bind (gets connected) (\<lambda>cn'.
     if cn' then io_return True
     else
       try_except
         (io_bind (await Ping VBool (ping c)) (\<lambda>ok.
          if \<not> ok then
            io_then (log ERROR ''Failed to connect to Memobase'' []) (io_return False)
          else
            io_bind (gets user_id) (\<lambda>uid.
            io_then
              (case uid of
                 None \<Rightarrow> create_user c
               | Some s \<Rightarrow>
                   if s = [] then create_user c
                   else
                     try_except
                       (io_bind (await (GetUser s) VUser (get_user c s)) (\<lambda>h.
                        io_then (modify (\<lambda>m. m\<lparr>user := Some h\<rparr>))
                        (log INFO ''Connected to existing Memobase user: %s'' [ArgStr s])))
                       (\<lambda>err.
                        io_then
                          (log WARNING ''User ID %s not found, creating new user: %s''
                             [ArgStr s, ArgExn err])
                          (create_user c)))
            (io_then (modify (\<lambda>m. m\<lparr>connected := True\<rparr>)) (io_return True)))))
         (\<lambda>err.
          io_then (log ERROR ''Error connecting to Memobase: %s'' [ArgExn err])
          (io_return False)))"

text \<open>
  \<^verbatim>\<open>if not self._connected and not await self.connect(): return ...\<close>: the
  \<^verbatim>\<open>and\<close> short-circuits, so \<^verbatim>\<open>connect\<close> is called only when the flag is false.
\<close>

definition not_connected_and_not_connect :: "('r, 'h) client \<Rightarrow> ('r, 'h, bool) io" where
  "not_connected_and_not_connect c =
     io_bind (gets connected) (\<lambda>cn.
     if \<not> cn then io_bind (connect c) (\<lambda>ok. io_return (\<not> ok)) else io_return False)"

definition store_conversation ::
  "('r, 'h) client \<Rightarrow> string \<Rightarrow> string \<Rightarrow> string \<Rightarrow> ('r, 'h, bool) io" where
  "store_conversation c user_message assistant_response assistant_name =
     io_bind (not_connected_and_not_connect c) (\<lambda>failed.
     if failed then io_return False
     else
       let msgs =
         [[(''role'', ''user''), (''content'', user_message)],
          [(''role'', ''assistant''), (''content'', assistant_response),
           (''alias'', assistant_name)]]
       in
       try_except
         (io_bind (the_user ''insert'') (\<lambda>h.
          io_then (await (Insert h (ChatBlob msgs)) (\<lambda>_. VNone) (user_insert c h (ChatBlob msgs)))
          (io_then (log DEBUG ''Stored conversation in Memobase'' [])
          (io_return True))))
         (\<lambda>err.
          io_then (log ERROR ''Error storing conversation in Memobase: %s'' [ArgExn err])
          (io_return False)))"

text \<open>The default \<^verbatim>\<open>assistant_name: str = "Assistant"\<close>.\<close>

definition store_conversation_default ::
  "('r, 'h) client \<Rightarrow> string \<Rightarrow> string \<Rightarrow> ('r, 'h, bool) io" where
  "store_conversation_default c user_message assistant_response =
     store_conversation c user_message assistant_response ''Assistant''"

definition max_retries :: int where
  "max_retries = 3"

text \<open>
  The \<^verbatim>\<open>while retry_count < max_retries\<close> loop of \<^verbatim>\<open>get_user_profile\<close>, as a
  function of \<^verbatim>\<open>retry_count\<close>. A Python function whose loop ends without a
  \<^verbatim>\<open>return\<close> returns \<^verbatim>\<open>None\<close>; that is the result \<open>None\<close> here.
\<close>

function profile_loop ::
  "('r, 'h) client \<Rightarrow> int \<Rightarrow> string list option \<Rightarrow> int \<Rightarrow> ('r, 'h, string option) io" where
  "profile_loop c max_tokens prefer_topics retry_count =
     (if retry_count < max_retries then
        try_except
          (io_bind (the_user ''context'') (\<lambda>h.
           io_bind
             (await (Context h max_tokens prefer_topics) VStr
                (user_context c h max_tokens prefer_topics))
             (\<lambda>ctx. io_return (Some ctx))))
          (\<lambda>err.
           io_then
             (log WARNING ''Error retrieving user profile (attempt %s/%s): %s''
                [ArgInt (retry_count + 1), ArgInt max_retries, ArgExn err])
             (if retry_count + 1 \<ge> max_retries then io_return (Some [])
              else io_then (sleep 1)
                (profile_loop c max_tokens prefer_topics (retry_count + 1))))
      else io_return None)"
  by pat_completeness auto
termination
  by (relation "measure (\<lambda>(c, mt, pt, rc). nat (max_retries - rc))") auto

definition get_user_profile ::
  "('r, 'h) client \<Rightarrow> int \<Rightarrow> string list option \<Rightarrow> ('r, 'h, string option) io" where
  "get_user_profile c max_tokens prefer_topics =
     io_bind (not_connected_and_not_connect c) (\<lambda>failed.
     if failed then io_return (Some [])
     else profile_loop c max_tokens prefer_topics 0)"

text \<open>The defaults \<^verbatim>\<open>max_tokens: int = 500\<close> and \<^verbatim>\<open>prefer_topics = None\<close>.\<close>

definition get_user_profile_default :: "('r, 'h) client \<Rightarrow> ('r, 'h, string option) io" where
  "get_user_profile_default c = get_user_profile c 500 None"

definition flush_buffer :: "('r, 'h) client \<Rightarrow> ('r, 'h, bool) io" where
  "flush_buffer c =
     io_bind (not_connected_and_not_connect c) (\<lambda>failed.
     if failed then io_return False
     else
       try_except
         (io_bind (the_user ''flush'') (\<lambda>h.
          io_then (await (Flush h) (\<lambda>_. VNone) (user_flush c h))
          (io_bind (gets user_id) (\<lambda>uid.
          io_then (log INFO ''Flushed Memobase buffer for user: %s'' [arg_id uid])
          (io_return True)))))
         (\<lambda>err.
          io_then (log ERROR ''Error flushing Memobase buffer: %s'' [ArgExn err])
          (io_return False)))"

definition get_user_id :: "('r, 'h, string option) io" where
  "get_user_id = io_bind (gets connected) (\<lambda>cn. if cn then gets user_id else io_return None)"

section \<open>Callers\<close>

text \<open>
  The conversation agent calls the public methods one after another on the same manager.
  \<open>run_ops\<close> is such a caller: it runs a list of method calls and collects what each
  one returned or raised.
\<close>

datatype op =
    Connect
  | StoreConversation string string string
  | GetUserProfile int "string list option"
  | FlushBuffer
  | GetUserId

datatype outcome = RBool bool | RStr "string option" | RId "string option"

definition returning :: "('a \<Rightarrow> outcome) \<Rightarrow> ('r, 'h, 'a) io \<Rightarrow> ('r, 'h, outcome) io" where
  "returning wrap m = io_bind m (\<lambda>a. io_return (wrap a))"

fun run_op :: "('r, 'h) client \<Rightarrow> op \<Rightarrow> ('r, 'h, outcome) io" where
  "run_op c Connect = returning RBool (connect c)"
| "run_op c (StoreConversation um ar an) = returning RBool (store_conversation c um ar an)"
| "run_op c (GetUserProfile mt pt) = returning RStr (get_user_profile c mt pt)"
| "run_op c FlushBuffer = returning RBool (flush_buffer c)"
| "run_op c GetUserId = returning RId get_user_id"

fun run_ops ::
  "('r, 'h) client \<Rightarrow> op list \<Rightarrow> ('r, 'h) world \<Rightarrow> (exn + outcome) list \<times> ('r, 'h) world" where
  "run_ops c [] w = ([], w)"
| "run_ops c (x # xs) w =
     (case run_op c x w of (res, w') \<Rightarrow>
        (case run_ops c xs w' of (ress, w'') \<Rightarrow> (res # ress, w'')))"

definition fresh :: "string option \<Rightarrow> 'r \<Rightarrow> ('r, 'h) world" where
  "fresh uid r = \<lparr>self = init uid, remote = r, trace = []\<rparr>"

text \<open>What each method returns when it gives up: \<^verbatim>\<open>False\<close>, \<^verbatim>\<open>""\<close> or \<^verbatim>\<open>None\<close>.\<close>

fun failure_sentinel :: "op \<Rightarrow> outcome" where
  "failure_sentinel Connect = RBool False"
| "failure_sentinel (StoreConversation um ar an) = RBool False"
| "failure_sentinel (GetUserProfile mt pt) = RStr (Some [])"
| "failure_sentinel FlushBuffer = RBool False"
| "failure_sentinel GetUserId = RId None"

subsection \<open>Callers that arrive together\<close>

text \<open>
  The event loop runs one coroutine at a time, and \<^verbatim>\<open>asyncio.Lock\<close> gives the lock to
  one of them at a time. When \<open>n\<close> callers reach \<^verbatim>\<open>connect\<close> while the manager is
  unconnected, each of them finds the flag false in the first test and asks for the lock.
  The first one gets it; while it is suspended in a remote call the others stay parked on
  the lock, and each of them gets the lock only when the holder before it has left the
  block. So the \<open>n\<close> blocks run one after another, each on the state the one before it
  left. \<open>contend\<close> runs them in that order and collects what each caller's
  \<^verbatim>\<open>connect\<close> returned.

  Callers of \<^verbatim>\<open>store_conversation\<close>, \<^verbatim>\<open>get_user_profile\<close> and \<^verbatim>\<open>flush_buffer\<close> reach
  \<^verbatim>\<open>connect\<close> through their first statement; what they do after it neither pings nor
  writes the manager's state, so it is left out here.
\<close>

fun contend ::
  "('r, 'h) client \<Rightarrow> nat \<Rightarrow> ('r, 'h) world \<Rightarrow> (exn + bool) list \<times> ('r, 'h) world" where
  "contend c 0 w = ([], w)"
| "contend c (Suc n) w =
     (case connect_locked c w of (res, w') \<Rightarrow>
        (case contend c n w' of (ress, w'') \<Rightarrow> (res # ress, w'')))"

section \<open>Reading a trace\<close>

fun is_call :: "'h event \<Rightarrow> bool" where
  "is_call (Call cl res) = True"
| "is_call ev = False"

fun is_ping :: "'h event \<Rightarrow> bool" where
  "is_ping (Call Ping res) = True"
| "is_ping ev = False"

text \<open>
  Every remote call that raised is followed at once by a warning or an error whose
  arguments include the exception.
\<close>

fun failures_logged :: "'h event list \<Rightarrow> bool" where
  "failures_logged [] = True"
| "failures_logged (Call cl (Inl e) # Log lvl fmt args # evs) =
     ((lvl = WARNING \<or> lvl = ERROR) \<and> ArgExn e \<in> set args \<and> failures_logged evs)"
| "failures_logged (Call cl (Inl e) # evs) = False"
| "failures_logged (ev # evs) = failures_logged evs"

text \<open>No remote method but \<^verbatim>\<open>ping\<close> was called.\<close>

definition only_pings :: "'h event list \<Rightarrow> bool" where
  "only_pings evs = list_all (\<lambda>ev. \<not> is_call ev \<or> is_ping ev) evs"

text \<open>How many times \<^verbatim>\<open>ping\<close> was called.\<close>

definition pings :: "'h event list \<Rightarrow> nat" where
  "pings evs = length (filter is_ping evs)"

text \<open>Whether the last remote call of a run raised.\<close>

fun raised_last :: "'h event list \<Rightarrow> bool" where
  "raised_last [] = False"
| "raised_last (ev # evs) =
     (if list_ex is_call evs then raised_last evs
      else (case ev of Call cl (Inl e) \<Rightarrow> True | _ \<Rightarrow> False))"

text \<open>
  The identifier and the user object of the last \<^verbatim>\<open>get_user\<close> call of a run that
  returned.
\<close>

fun last_fetched :: "'h event list \<Rightarrow> (string \<times> 'h) option" where
  "last_fetched [] = None"
| "last_fetched (ev # evs) =
     (case last_fetched evs of
        Some p \<Rightarrow> Some p
      | None \<Rightarrow>
          (case ev of Call (GetUser uid) (Inr (VUser h)) \<Rightarrow> Some (uid, h) | _ \<Rightarrow> None))"

text \<open>The data-model invariant: a connected manager has a user object.\<close>

definition handle_inv :: "'h manager \<Rightarrow> bool" where
  "handle_inv m = (connected m \<longrightarrow> user m \<noteq> None)"

section \<open>A test double\<close>

text \<open>
  A remote service for concrete runs. Its state counts the calls it has served; user
  objects are the identifiers themselves. \<open>up\<close> is what \<^verbatim>\<open>ping\<close> returns, \<open>known\<close>
  are the identifiers \<^verbatim>\<open>get_user\<close> accepts, \<open>new_id\<close> is what \<^verbatim>\<open>add_user\<close> returns,
  and \<open>healthy\<close> says whether \<^verbatim>\<open>insert\<close>, \<^verbatim>\<open>context\<close> and \<^verbatim>\<open>flush\<close> succeed.
\<close>

definition double :: "bool \<Rightarrow> string list \<Rightarrow> string \<Rightarrow> bool \<Rightarrow> (nat, string) client" where
  "double up known new_id healthy =
     \<lparr>ping = (\<lambda>n. (Inr up, Suc n)),
      get_user = (\<lambda>uid n.
        (if uid \<in> set known then Inr uid else Inl (Exception ''user not found''), Suc n)),
      add_user = (\<lambda>md n. (Inr new_id, Suc n)),
      user_insert = (\<lambda>h blob n.
        (if healthy then Inr () else Inl (Exception ''insert failed''), Suc n)),
      user_context = (\<lambda>h mt pt n.
        (if healthy then Inr ''profile'' else Inl (Exception ''context failed''), Suc n)),
      user_flush = (\<lambda>h n.
        (if healthy then Inr () else Inl (Exception ''flush failed''), Suc n))\<rparr>"

text \<open>A manager already connected as user \<open>uid\<close>, in front of a remote that has served nothing.\<close>

definition session :: "string \<Rightarrow> (nat, string) world" where
  "session uid =
     \<lparr>self = \<lparr>user = Some uid, user_id = Some uid, connected = True\<rparr>, remote = 0, trace = []\<rparr>"

section \<open>Symbolic execution\<close>

lemmas io_defs = io_return_def io_raise_def io_bind_def io_then_def try_except_def emit_def
  log_def sleep_def await_def gets_def modify_def the_user_def

lemma connect_connected: "connected (self w) \<Longrightarrow> connect c w = (Inr True, w)"
  by (simp add: connect_def io_defs)

lemma guard_connected:
  "connected (self w) \<Longrightarrow> not_connected_and_not_connect c w = (Inr False, w)"
  by (simp add: not_connected_and_not_connect_def io_defs)

lemma guard_unconnected:
  "\<not> connected (self w) \<Longrightarrow>
   not_connected_and_not_connect c w =
     (case connect c w of (Inl e, w') \<Rightarrow> (Inl e, w') | (Inr ok, w') \<Rightarrow> (Inr (\<not> ok), w'))"
  by (simp add: not_connected_and_not_connect_def io_defs split: prod.splits sum.splits)

subsection \<open>Traces of consecutive runs\<close>

lemma failures_logged_append:
  "failures_logged xs \<Longrightarrow> failures_logged ys \<Longrightarrow> failures_logged (xs @ ys)"
  by (induction xs rule: failures_logged.induct) auto

lemma raised_last_no_call: "\<not> list_ex is_call ys \<Longrightarrow> \<not> raised_last ys"
  by (induction ys) (auto split: event.splits sum.splits)

lemma raised_last_append:
  "raised_last (xs @ ys) = (if list_ex is_call ys then raised_last ys else raised_last xs)"
  by (induction xs) (auto simp: raised_last_no_call)

lemma last_fetched_append:
  "last_fetched (xs @ ys) = (case last_fetched ys of Some p \<Rightarrow> Some p | None \<Rightarrow> last_fetched xs)"
  by (induction xs) (auto split: option.splits)

lemma connect_summary:
  "\<exists>b w' evs. connect c w = (Inr b, w') \<and> trace w' = trace w @ evs \<and> failures_logged evs
     \<and> (raised_last evs \<longrightarrow> \<not> b)
     \<and> connected (self w') = b
     \<and> (connected (self w) \<longrightarrow> w' = w)
     \<and> (\<not> connected (self w) \<and> b \<longrightarrow>
           (\<exists>uid h. last_fetched evs = Some (uid, h) \<and> user (self w') = Some h
              \<and> user_id (self w') = Some uid))
     \<and> (user (self w) \<noteq> None \<longrightarrow> user (self w') \<noteq> None)"
proof (cases "connected (self w)")
  case True
  then show ?thesis by (auto simp: connect_connected)
next
  case False
  then show ?thesis
    by (auto simp: connect_def create_user_def io_defs
        split: prod.splits sum.splits option.splits if_splits)
qed

lemma guard_summary:
  "\<exists>failed w1 evs. not_connected_and_not_connect c w = (Inr failed, w1)
     \<and> trace w1 = trace w @ evs \<and> failures_logged evs
     \<and> (raised_last evs \<longrightarrow> failed)
     \<and> connected (self w1) = (\<not> failed)
     \<and> (connected (self w) \<longrightarrow> w1 = w)
     \<and> (\<not> connected (self w) \<and> \<not> failed \<longrightarrow>
           (\<exists>uid h. last_fetched evs = Some (uid, h) \<and> user (self w1) = Some h
              \<and> user_id (self w1) = Some uid))
     \<and> (user (self w) \<noteq> None \<longrightarrow> user (self w1) \<noteq> None)"
proof (cases "connected (self w)")
  case True
  then show ?thesis by (auto simp: guard_connected)
next
  case False
  obtain b w' evs where c: "connect c w = (Inr b, w')" and rest: "trace w' = trace w @ evs" "failures_logged evs"
     "raised_last evs \<longrightarrow> \<not> b"
     "connected (self w') = b"
     "\<not> connected (self w) \<and> b \<longrightarrow>
           (\<exists>uid h. last_fetched evs = Some (uid, h) \<and> user (self w') = Some h
              \<and> user_id (self w') = Some uid)"
     "user (self w) \<noteq> None \<longrightarrow> user (self w') \<noteq> None"
    using connect_summary [of c w] by blast
  have "not_connected_and_not_connect c w = (Inr (\<not> b), w')"
    using False c by (simp add: guard_unconnected)
  with rest False show ?thesis by auto
qed

lemma store_failed:
  "not_connected_and_not_connect c w = (Inr True, w1) \<Longrightarrow>
   store_conversation c um ar an w = (Inr False, w1)"
  by (simp add: store_conversation_def io_bind_def io_return_def)

lemma store_body:
  "not_connected_and_not_connect c w = (Inr False, w1) \<Longrightarrow>
   \<exists>b w' evs. store_conversation c um ar an w = (Inr b, w') \<and> trace w' = trace w1 @ evs
     \<and> failures_logged evs \<and> (raised_last evs \<longrightarrow> \<not> b) \<and> self w' = self w1
     \<and> last_fetched evs = None"
  by (auto simp: store_conversation_def io_defs Let_def split: prod.splits sum.splits option.splits)

lemma flush_failed:
  "not_connected_and_not_connect c w = (Inr True, w1) \<Longrightarrow> flush_buffer c w = (Inr False, w1)"
  by (simp add: flush_buffer_def io_bind_def io_return_def)

lemma flush_body:
  "not_connected_and_not_connect c w = (Inr False, w1) \<Longrightarrow>
   \<exists>b w' evs. flush_buffer c w = (Inr b, w') \<and> trace w' = trace w1 @ evs
     \<and> failures_logged evs \<and> (raised_last evs \<longrightarrow> \<not> b) \<and> self w' = self w1
     \<and> last_fetched evs = None"
  by (auto simp: flush_buffer_def io_defs Let_def split: prod.splits sum.splits option.splits)

lemma profile_failed:
  "not_connected_and_not_connect c w = (Inr True, w1) \<Longrightarrow>
   get_user_profile c mt pt w = (Inr (Some []), w1)"
  by (simp add: get_user_profile_def io_bind_def io_return_def)

lemma profile_loop_summary:
  "\<exists>s w' evs. profile_loop c mt pt 0 w1 = (Inr (Some s), w') \<and> trace w' = trace w1 @ evs
     \<and> failures_logged evs \<and> (raised_last evs \<longrightarrow> s = []) \<and> self w' = self w1
     \<and> last_fetched evs = None"
  by (auto simp: io_defs max_retries_def split: prod.splits sum.splits option.splits)

lemma profile_body:
  "not_connected_and_not_connect c w = (Inr False, w1) \<Longrightarrow>
   get_user_profile c mt pt w = profile_loop c mt pt 0 w1"
  by (simp add: get_user_profile_def io_bind_def io_return_def)

subsection \<open>What every method call does\<close>

lemma after_guard:
  assumes failed: "\<And>w1. not_connected_and_not_connect c w = (Inr True, w1) \<Longrightarrow> m w = (Inr sentinel, w1)"
    and body: "\<And>w1. not_connected_and_not_connect c w = (Inr False, w1) \<Longrightarrow>
      \<exists>b w' evs. m w = (Inr b, w') \<and> trace w' = trace w1 @ evs \<and> failures_logged evs
        \<and> (raised_last evs \<longrightarrow> b = sentinel) \<and> self w' = self w1 \<and> last_fetched evs = None
        \<and> P b"
    and sentinel: "P sentinel"
  shows "\<exists>b w' evs. m w = (Inr b, w') \<and> trace w' = trace w @ evs
     \<and> failures_logged evs \<and> (raised_last evs \<longrightarrow> b = sentinel) \<and> P b
     \<and> (connected (self w) \<longrightarrow> self w' = self w)
     \<and> (user (self w) \<noteq> None \<longrightarrow> user (self w') \<noteq> None)
     \<and> (\<not> connected (self w) \<and> connected (self w') \<longrightarrow>
           (\<exists>uid h. last_fetched evs = Some (uid, h) \<and> user (self w') = Some h
              \<and> user_id (self w') = Some uid))"
proof -
  obtain fl w1 evs1 where g: "not_connected_and_not_connect c w = (Inr fl, w1)"
    and g1: "trace w1 = trace w @ evs1" "failures_logged evs1" "raised_last evs1 \<longrightarrow> fl"
      "connected (self w1) = (\<not> fl)" "connected (self w) \<longrightarrow> w1 = w"
      "\<not> connected (self w) \<and> \<not> fl \<longrightarrow>
           (\<exists>uid h. last_fetched evs1 = Some (uid, h) \<and> user (self w1) = Some h
              \<and> user_id (self w1) = Some uid)"
      "user (self w) \<noteq> None \<longrightarrow> user (self w1) \<noteq> None"
    using guard_summary [of c w] by blast
  show ?thesis
  proof (cases fl)
    case True
    with g have "m w = (Inr sentinel, w1)" by (simp add: failed)
    with g1 True sentinel show ?thesis by auto
  next
    case False
    with g have "not_connected_and_not_connect c w = (Inr False, w1)" by simp
    from body [OF this] obtain b w' evs2 where s: "m w = (Inr b, w')"
      and s1: "trace w' = trace w1 @ evs2" "failures_logged evs2" "raised_last evs2 \<longrightarrow> b = sentinel"
        "self w' = self w1" "last_fetched evs2 = None" "P b"
      by blast
    from False g1 s1 have "trace w' = trace w @ (evs1 @ evs2)" "failures_logged (evs1 @ evs2)"
      "raised_last (evs1 @ evs2) \<longrightarrow> b = sentinel" "last_fetched (evs1 @ evs2) = last_fetched evs1"
      by (auto simp: failures_logged_append raised_last_append last_fetched_append)
    with s s1 g1 False show ?thesis
      by (intro exI [of _ b] exI [of _ w'] exI [of _ "evs1 @ evs2"]) auto
  qed
qed

lemma store_summary:
  "\<exists>b w' evs. store_conversation c um ar an w = (Inr b, w') \<and> trace w' = trace w @ evs
     \<and> failures_logged evs \<and> (raised_last evs \<longrightarrow> \<not> b)
     \<and> (connected (self w) \<longrightarrow> self w' = self w)
     \<and> (user (self w) \<noteq> None \<longrightarrow> user (self w') \<noteq> None)
     \<and> (\<not> connected (self w) \<and> connected (self w') \<longrightarrow>
           (\<exists>uid h. last_fetched evs = Some (uid, h) \<and> user (self w') = Some h
              \<and> user_id (self w') = Some uid))"
proof -
  have "\<exists>b w' evs. store_conversation c um ar an w = (Inr b, w') \<and> trace w' = trace w @ evs
     \<and> failures_logged evs \<and> (raised_last evs \<longrightarrow> b = False) \<and> True
     \<and> (connected (self w) \<longrightarrow> self w' = self w)
     \<and> (user (self w) \<noteq> None \<longrightarrow> user (self w') \<noteq> None)
     \<and> (\<not> connected (self w) \<and> connected (self w') \<longrightarrow>
           (\<exists>uid h. last_fetched evs = Some (uid, h) \<and> user (self w') = Some h
              \<and> user_id (self w') = Some uid))"
  proof (rule after_guard [where P = "\<lambda>_. True"])
    fix w1 assume "not_connected_and_not_connect c w = (Inr True, w1)"
    then show "store_conversation c um ar an w = (Inr False, w1)" by (rule store_failed)
  next
    fix w1 assume "not_connected_and_not_connect c w = (Inr False, w1)"
    from store_body [OF this] obtain b w' evs where "store_conversation c um ar an w = (Inr b, w')"
      "trace w' = trace w1 @ evs" "failures_logged evs" "raised_last evs \<longrightarrow> \<not> b"
      "self w' = self w1" "last_fetched evs = None"
      by blast
    then show "\<exists>b w' evs. store_conversation c um ar an w = (Inr b, w') \<and> trace w' = trace w1 @ evs
       \<and> failures_logged evs \<and> (raised_last evs \<longrightarrow> b = False) \<and> self w' = self w1
       \<and> last_fetched evs = None \<and> True"
      by (intro exI [of _ b] exI [of _ w'] exI [of _ evs]) simp
  qed simp
  then show ?thesis by simp
qed

lemma flush_summary:
  "\<exists>b w' evs. flush_buffer c w = (Inr b, w') \<and> trace w' = trace w @ evs
     \<and> failures_logged evs \<and> (raised_last evs \<longrightarrow> \<not> b)
     \<and> (connected (self w) \<longrightarrow> self w' = self w)
     \<and> (user (self w) \<noteq> None \<longrightarrow> user (self w') \<noteq> None)
     \<and> (\<not> connected (self w) \<and> connected (self w') \<longrightarrow>
           (\<exists>uid h. last_fetched evs = Some (uid, h) \<and> user (self w') = Some h
              \<and> user_id (self w') = Some uid))"
proof -
  have "\<exists>b w' evs. flush_buffer c w = (Inr b, w') \<and> trace w' = trace w @ evs
     \<and> failures_logged evs \<and> (raised_last evs \<longrightarrow> b = False) \<and> True
     \<and> (connected (self w) \<longrightarrow> self w' = self w)
     \<and> (user (self w) \<noteq> None \<longrightarrow> user (self w') \<noteq> None)
     \<and> (\<not> connected (self w) \<and> connected (self w') \<longrightarrow>
           (\<exists>uid h. last_fetched evs = Some (uid, h) \<and> user (self w') = Some h
              \<and> user_id (self w') = Some uid))"
  proof (rule after_guard [where P = "\<lambda>_. True"])
    fix w1 assume "not_connected_and_not_connect c w = (Inr True, w1)"
    then show "flush_buffer c w = (Inr False, w1)" by (rule flush_failed)
  next
    fix w1 assume "not_connected_and_not_connect c w = (Inr False, w1)"
    from flush_body [OF this] obtain b w' evs where "flush_buffer c w = (Inr b, w')"
      "trace w' = trace w1 @ evs" "failures_logged evs" "raised_last evs \<longrightarrow> \<not> b"
      "self w' = self w1" "last_fetched evs = None"
      by blast
    then show "\<exists>b w' evs. flush_buffer c w = (Inr b, w') \<and> trace w' = trace w1 @ evs
       \<and> failures_logged evs \<and> (raised_last evs \<longrightarrow> b = False) \<and> self w' = self w1
       \<and> last_fetched evs = None \<and> True"
      by (intro exI [of _ b] exI [of _ w'] exI [of _ evs]) simp
  qed simp
  then show ?thesis by simp
qed

lemma profile_summary:
  "\<exists>b w' evs. get_user_profile c mt pt w = (Inr b, w') \<and> trace w' = trace w @ evs
     \<and> failures_logged evs \<and> (raised_last evs \<longrightarrow> b = Some []) \<and> b \<noteq> None
     \<and> (connected (self w) \<longrightarrow> self w' = self w)
     \<and> (user (self w) \<noteq> None \<longrightarrow> user (self w') \<noteq> None)
     \<and> (\<not> connected (self w) \<and> connected (self w') \<longrightarrow>
           (\<exists>uid h. last_fetched evs = Some (uid, h) \<and> user (self w') = Some h
              \<and> user_id (self w') = Some uid))"
proof (rule after_guard [where P = "\<lambda>b. b \<noteq> None"])
  fix w1 assume "not_connected_and_not_connect c w = (Inr True, w1)"
  then show "get_user_profile c mt pt w = (Inr (Some []), w1)" by (rule profile_failed)
next
  fix w1 assume "not_connected_and_not_connect c w = (Inr False, w1)"
  then have eq: "get_user_profile c mt pt w = profile_loop c mt pt 0 w1" by (rule profile_body)
  from profile_loop_summary [of c mt pt w1] obtain s w' evs where
    "profile_loop c mt pt 0 w1 = (Inr (Some s), w')"
    "trace w' = trace w1 @ evs" "failures_logged evs" "raised_last evs \<longrightarrow> s = []"
    "self w' = self w1" "last_fetched evs = None"
    by blast
  with eq show "\<exists>b w' evs. get_user_profile c mt pt w = (Inr b, w') \<and> trace w' = trace w1 @ evs
     \<and> failures_logged evs \<and> (raised_last evs \<longrightarrow> b = Some []) \<and> self w' = self w1
     \<and> last_fetched evs = None \<and> b \<noteq> None"
    by (intro exI [of _ "Some s"] exI [of _ w'] exI [of _ evs]) simp
qed simp

lemma get_user_id_eq:
  "get_user_id w = (Inr (if connected (self w) then user_id (self w) else None), w)"
  by (simp add: get_user_id_def io_defs)

lemma run_op_summary:
  "\<exists>res w' evs. run_op c x w = (Inr res, w') \<and> trace w' = trace w @ evs
     \<and> (connected (self w) \<longrightarrow> self w' = self w)
     \<and> (user (self w) \<noteq> None \<longrightarrow> user (self w') \<noteq> None)
     \<and> (\<not> connected (self w) \<and> connected (self w') \<longrightarrow>
           (\<exists>uid h. last_fetched evs = Some (uid, h) \<and> user (self w') = Some h
              \<and> user_id (self w') = Some uid))"
proof (cases x)
  case Connect
  from connect_summary [of c w] obtain b w' evs where
    "connect c w = (Inr b, w')" "trace w' = trace w @ evs" "connected (self w') = b"
    "connected (self w) \<longrightarrow> w' = w"
    "\<not> connected (self w) \<and> b \<longrightarrow>
           (\<exists>uid h. last_fetched evs = Some (uid, h) \<and> user (self w') = Some h
              \<and> user_id (self w') = Some uid)"
    "user (self w) \<noteq> None \<longrightarrow> user (self w') \<noteq> None"
    by blast
  with Connect show ?thesis
    by (intro exI [of _ "RBool b"] exI [of _ w'] exI [of _ evs])
      (simp add: returning_def io_bind_def io_return_def)
next
  case (StoreConversation um ar an)
  from store_summary [of c um ar an w] obtain b w' evs where
    "store_conversation c um ar an w = (Inr b, w')" "trace w' = trace w @ evs"
    "connected (self w) \<longrightarrow> self w' = self w"
    "user (self w) \<noteq> None \<longrightarrow> user (self w') \<noteq> None"
    "\<not> connected (self w) \<and> connected (self w') \<longrightarrow>
           (\<exists>uid h. last_fetched evs = Some (uid, h) \<and> user (self w') = Some h
              \<and> user_id (self w') = Some uid)"
    by blast
  with StoreConversation show ?thesis
    by (intro exI [of _ "RBool b"] exI [of _ w'] exI [of _ evs])
      (simp add: returning_def io_bind_def io_return_def)
next
  case (GetUserProfile mt pt)
  from profile_summary [of c mt pt w] obtain b w' evs where
    "get_user_profile c mt pt w = (Inr b, w')" "trace w' = trace w @ evs"
    "connected (self w) \<longrightarrow> self w' = self w"
    "user (self w) \<noteq> None \<longrightarrow> user (self w') \<noteq> None"
    "\<not> connected (self w) \<and> connected (self w') \<longrightarrow>
           (\<exists>uid h. last_fetched evs = Some (uid, h) \<and> user (self w') = Some h
              \<and> user_id (self w') = Some uid)"
    by blast
  with GetUserProfile show ?thesis
    by (intro exI [of _ "RStr b"] exI [of _ w'] exI [of _ evs])
      (simp add: returning_def io_bind_def io_return_def)
next
  case FlushBuffer
  from flush_summary [of c w] obtain b w' evs where
    "flush_buffer c w = (Inr b, w')" "trace w' = trace w @ evs"
    "connected (self w) \<longrightarrow> self w' = self w"
    "user (self w) \<noteq> None \<longrightarrow> user (self w') \<noteq> None"
    "\<not> connected (self w) \<and> connected (self w') \<longrightarrow>
           (\<exists>uid h. last_fetched evs = Some (uid, h) \<and> user (self w') = Some h
              \<and> user_id (self w') = Some uid)"
    by blast
  with FlushBuffer show ?thesis
    by (intro exI [of _ "RBool b"] exI [of _ w'] exI [of _ evs])
      (simp add: returning_def io_bind_def io_return_def)
next
  case GetUserId
  then show ?thesis
    by (intro exI [of _ "RId (if connected (self w) then user_id (self w) else None)"]
        exI [of _ w] exI [of _ "[]"])
      (simp add: returning_def io_bind_def io_return_def get_user_id_eq)
qed

subsection \<open>Sequences of method calls\<close>

lemma snd_run_ops_Cons:
  "snd (run_ops c (x # xs) w) = snd (run_ops c xs (snd (run_op c x w)))"
  by (simp split: prod.splits)

lemma snd_run_ops_append:
  "snd (run_ops c (xs @ ys) w) = snd (run_ops c ys (snd (run_ops c xs w)))"
proof (induction xs arbitrary: w)
  case Nil
  show ?case by simp
next
  case (Cons x xs)
  show ?case by (simp only: append_Cons snd_run_ops_Cons Cons.IH)
qed

lemma run_op_connected: "connected (self w) \<Longrightarrow> self (snd (run_op c x w)) = self w"
  using run_op_summary [of c x w] by auto

lemma run_ops_connected: "connected (self w) \<Longrightarrow> self (snd (run_ops c xs w)) = self w"
proof (induction xs arbitrary: w)
  case Nil
  then show ?case by simp
next
  case (Cons x xs)
  from Cons.prems have same: "self (snd (run_op c x w)) = self w" by (rule run_op_connected)
  with Cons.prems have "connected (self (snd (run_op c x w)))" by simp
  from Cons.IH [OF this] same show ?case by (simp only: snd_run_ops_Cons)
qed

lemma run_op_inv: "handle_inv (self w) \<Longrightarrow> handle_inv (self (snd (run_op c x w)))"
  using run_op_summary [of c x w] by (auto simp: handle_inv_def)

lemma run_ops_inv: "handle_inv (self w) \<Longrightarrow> handle_inv (self (snd (run_ops c xs w)))"
proof (induction xs arbitrary: w)
  case Nil
  then show ?case by simp
next
  case (Cons x xs)
  from Cons.prems have "handle_inv (self (snd (run_op c x w)))" by (rule run_op_inv)
  from Cons.IH [OF this] show ?case by (simp only: snd_run_ops_Cons)
qed

lemma run_op_ping_false:
  assumes "\<not> connected (self w)" and "fst (ping c (remote w)) = Inr False"
  shows "\<exists>w' evs. run_op c x w = (Inr (failure_sentinel x), w') \<and> self w' = self w
     \<and> trace w' = trace w @ evs \<and> only_pings evs"
proof -
  obtain r1 where p: "ping c (remote w) = (Inr False, r1)"
    using assms(2) by (cases "ping c (remote w)") auto
  with assms(1) have cn: "connect c w = (Inr False, w\<lparr>remote := r1, trace := trace w @
         [Call Ping (Inr (VBool False)), Log ERROR ''Failed to connect to Memobase'' []]\<rparr>)"
    by (simp add: connect_def io_defs)
  with assms(1) have g: "not_connected_and_not_connect c w = (Inr True, w\<lparr>remote := r1, trace := trace w @
         [Call Ping (Inr (VBool False)), Log ERROR ''Failed to connect to Memobase'' []]\<rparr>)"
    by (simp add: guard_unconnected)
  show ?thesis
  proof (cases x)
    case GetUserId
    with assms(1) show ?thesis
      by (simp add: returning_def io_bind_def io_return_def get_user_id_eq only_pings_def)
  qed (simp_all add: returning_def io_bind_def io_return_def cn store_failed [OF g]
      profile_failed [OF g] flush_failed [OF g] only_pings_def)
qed

lemma only_pings_append: "only_pings xs \<Longrightarrow> only_pings ys \<Longrightarrow> only_pings (xs @ ys)"
  by (simp add: only_pings_def)

lemma run_ops_ping_false:
  assumes "\<forall>r. fst (ping c r) = Inr False"
  shows "\<not> connected (self w) \<Longrightarrow>
     \<exists>w' evs. run_ops c xs w = (map (\<lambda>x. Inr (failure_sentinel x)) xs, w') \<and> self w' = self w
       \<and> trace w' = trace w @ evs \<and> only_pings evs"
proof (induction xs arbitrary: w)
  case Nil
  then show ?case by (simp add: only_pings_def)
next
  case (Cons x xs)
  from run_op_ping_false [of w c x] Cons.prems assms obtain w1 evs1 where
    a: "run_op c x w = (Inr (failure_sentinel x), w1)" "self w1 = self w"
      "trace w1 = trace w @ evs1" "only_pings evs1"
    by blast
  with Cons.prems have "\<not> connected (self w1)" by simp
  from Cons.IH [OF this] obtain w2 evs2 where
    b: "run_ops c xs w1 = (map (\<lambda>x. Inr (failure_sentinel x)) xs, w2)" "self w2 = self w1"
      "trace w2 = trace w1 @ evs2" "only_pings evs2"
    by blast
  from a b show ?case
    by (intro exI [of _ w2] exI [of _ "evs1 @ evs2"]) (simp add: only_pings_append)
qed

section \<open>The retry policy of get_user_profile\<close>

text \<open>
  C1. On a connected manager (with its user object \<open>h\<close>), \<^verbatim>\<open>get_user_profile\<close> is
  decided by at most three consecutive \<^verbatim>\<open>context\<close> calls \<open>a1\<close>, \<open>a2\<close>, \<open>a3\<close>. The first
  one that returns ends the call with its result, with no further attempt and no further
  sleep. When all three raise, the call returns the empty string after exactly three
  attempts, three warnings (numbered 1, 2, 3) and two sleeps of one second, one between
  consecutive attempts and none after the third. It never raises and never returns
  \<^verbatim>\<open>None\<close>.
\<close>

theorem get_user_profile_retry:
  assumes "connected (self w)" and "user (self w) = Some h"
    and "user_context c h mt pt (remote w) = (a1, r1)"
    and "user_context c h mt pt r1 = (a2, r2)"
    and "user_context c h mt pt r2 = (a3, r3)"
  shows "get_user_profile c mt pt w =
    (let attempt = (\<lambda>a. Call (Context h mt pt) (map_sum id VStr a));
         warning = (\<lambda>n e. Log WARNING ''Error retrieving user profile (attempt %s/%s): %s''
                      [ArgInt n, ArgInt 3, ArgExn e])
     in case a1 of
          Inr s \<Rightarrow> (Inr (Some s), w\<lparr>remote := r1, trace := trace w @ [attempt a1]\<rparr>)
        | Inl e1 \<Rightarrow>
       (case a2 of
          Inr s \<Rightarrow> (Inr (Some s), w\<lparr>remote := r2, trace := trace w @
                     [attempt a1, warning 1 e1, Sleep 1, attempt a2]\<rparr>)
        | Inl e2 \<Rightarrow>
       (case a3 of
          Inr s \<Rightarrow> (Inr (Some s), w\<lparr>remote := r3, trace := trace w @
                     [attempt a1, warning 1 e1, Sleep 1, attempt a2, warning 2 e2, Sleep 1,
                      attempt a3]\<rparr>)
        | Inl e3 \<Rightarrow> (Inr (Some []), w\<lparr>remote := r3, trace := trace w @
                     [attempt a1, warning 1 e1, Sleep 1, attempt a2, warning 2 e2, Sleep 1,
                      attempt a3, warning 3 e3]\<rparr>))))"
  using assms
  by (simp add: get_user_profile_def guard_connected io_defs max_retries_def Let_def
      split: sum.splits)

theorem get_user_profile_retry_witness:
  "get_user_profile (double True [''u1''] ''u2'' False) 500 None (session ''u1'') =
     (Inr (Some []),
      (session ''u1'')\<lparr>remote := 3, trace :=
        [Call (Context ''u1'' 500 None) (Inl (Exception ''context failed'')),
         Log WARNING ''Error retrieving user profile (attempt %s/%s): %s''
           [ArgInt 1, ArgInt 3, ArgExn (Exception ''context failed'')],
         Sleep 1,
         Call (Context ''u1'' 500 None) (Inl (Exception ''context failed'')),
         Log WARNING ''Error retrieving user profile (attempt %s/%s): %s''
           [ArgInt 2, ArgInt 3, ArgExn (Exception ''context failed'')],
         Sleep 1,
         Call (Context ''u1'' 500 None) (Inl (Exception ''context failed'')),
         Log WARNING ''Error retrieving user profile (attempt %s/%s): %s''
           [ArgInt 3, ArgInt 3, ArgExn (Exception ''context failed'')]]\<rparr>)"
  using get_user_profile_retry [where w = "session ''u1''" and h = "''u1''"
      and c = "double True [''u1''] ''u2'' False" and mt = 500 and pt = None
      and ?a1.0 = "Inl (Exception ''context failed'')" and ?r1.0 = 1
      and ?a2.0 = "Inl (Exception ''context failed'')" and ?r2.0 = 2
      and ?a3.0 = "Inl (Exception ''context failed'')" and ?r3.0 = 3]
  by (simp add: double_def session_def)

section \<open>Identity resolution in connect\<close>

text \<open>
  C2, as amended. For a manager whose stored identifier is a non-empty string, \<^verbatim>\<open>connect\<close>
  after a successful ping first calls \<^verbatim>\<open>get_user\<close> with that identifier. If that call
  returns, the manager is connected to it. If it raises, exactly one \<^verbatim>\<open>add_user\<close> call
  follows; when it returns an identifier, the stored identifier becomes that one and
  \<^verbatim>\<open>get_user\<close> is called with it; when that returns, \<^verbatim>\<open>connect\<close> returns
  \<^verbatim>\<open>True\<close>. When \<^verbatim>\<open>add_user\<close> or the second \<^verbatim>\<open>get_user\<close> raises, \<^verbatim>\<open>connect\<close>
  returns \<^verbatim>\<open>False\<close>.
\<close>

theorem connect_supplied_identifier:
  assumes "\<not> connected (self w)" and "user_id (self w) = Some uid" and "uid \<noteq> []"
    and "ping c (remote w) = (Inr True, r1)"
    and "get_user c uid r1 = (g1, r2)"
  shows "connect c w =
    (let pinged = Call Ping (Inr (VBool True));
         not_found = (\<lambda>e. Log WARNING ''User ID %s not found, creating new user: %s''
                        [ArgStr uid, ArgExn e]);
         gave_up = (\<lambda>e. Log ERROR ''Error connecting to Memobase: %s'' [ArgExn e])
     in case g1 of
          Inr h \<Rightarrow>
            (Inr True,
             w\<lparr>self := (self w)\<lparr>user := Some h, connected := True\<rparr>, remote := r2,
               trace := trace w @
                 [pinged, Call (GetUser uid) (Inr (VUser h)),
                  Log INFO ''Connected to existing Memobase user: %s'' [ArgStr uid]]\<rparr>)
        | Inl e1 \<Rightarrow>
       (case add_user c source_marker r2 of
          (Inl e2, r3) \<Rightarrow>
            (Inr False,
             w\<lparr>remote := r3,
               trace := trace w @
                 [pinged, Call (GetUser uid) (Inl e1), not_found e1,
                  Call (AddUser source_marker) (Inl e2), gave_up e2]\<rparr>)
        | (Inr nid, r3) \<Rightarrow>
       (case get_user c nid r3 of
          (Inl e3, r4) \<Rightarrow>
            (Inr False,
             w\<lparr>self := (self w)\<lparr>user_id := Some nid\<rparr>, remote := r4,
               trace := trace w @
                 [pinged, Call (GetUser uid) (Inl e1), not_found e1,
                  Call (AddUser source_marker) (Inr (VStr nid)),
                  Call (GetUser nid) (Inl e3), gave_up e3]\<rparr>)
        | (Inr h, r4) \<Rightarrow>
            (Inr True,
             w\<lparr>self := (self w)\<lparr>user := Some h, user_id := Some nid, connected := True\<rparr>,
               remote := r4,
               trace := trace w @
                 [pinged, Call (GetUser uid) (Inl e1), not_found e1,
                  Call (AddUser source_marker) (Inr (VStr nid)),
                  Call (GetUser nid) (Inr (VUser h)),
                  Log INFO ''Created new Memobase user: %s'' [ArgStr nid]]\<rparr>))))"
  using assms
  by (simp add: connect_def create_user_def io_defs Let_def split: sum.splits prod.splits)

theorem connect_supplied_identifier_witness:
  "connect (double True [''u2''] ''u2'' True) (fresh (Some ''u1'') 0) =
     (Inr True,
      \<lparr>self = \<lparr>user = Some ''u2'', user_id = Some ''u2'', connected = True\<rparr>, remote = 4,
       trace =
         [Call Ping (Inr (VBool True)),
          Call (GetUser ''u1'') (Inl (Exception ''user not found'')),
          Log WARNING ''User ID %s not found, creating new user: %s''
            [ArgStr ''u1'', ArgExn (Exception ''user not found'')],
          Call (AddUser source_marker) (Inr (VStr ''u2'')),
          Call (GetUser ''u2'') (Inr (VUser ''u2'')),
          Log INFO ''Created new Memobase user: %s'' [ArgStr ''u2'']]\<rparr>)"
  using connect_supplied_identifier [where w = "fresh (Some ''u1'') 0" and uid = "''u1''"
      and c = "double True [''u2''] ''u2'' True" and ?r1.0 = 1
      and ?g1.0 = "Inl (Exception ''user not found'')" and ?r2.0 = 2]
  by (simp add: double_def fresh_def init_def)

text \<open>
  C2 as stated fails for the empty string: \<^verbatim>\<open>if self.user_id:\<close> is false for it, so a
  manager constructed with \<^verbatim>\<open>user_id=""\<close> never calls \<^verbatim>\<open>get_user("")\<close>; it goes
  straight to \<^verbatim>\<open>add_user\<close>.
\<close>

theorem connect_empty_identifier_counterexample:
  "user_id (self (fresh (Some []) 0 :: (nat, string) world)) = Some []
 \<and> connect (double True [''u1''] ''u1'' True) (fresh (Some []) 0) =
     (Inr True,
      \<lparr>self = \<lparr>user = Some ''u1'', user_id = Some ''u1'', connected = True\<rparr>, remote = 3,
       trace =
         [Call Ping (Inr (VBool True)),
          Call (AddUser source_marker) (Inr (VStr ''u1'')),
          Call (GetUser ''u1'') (Inr (VUser ''u1'')),
          Log INFO ''Created new Memobase user: %s'' [ArgStr ''u1'']]\<rparr>)
 \<and> (\<forall>res. Call (GetUser []) res \<notin>
       set (trace (snd (connect (double True [''u1''] ''u1'' True) (fresh (Some []) 0)))))"
  by (simp add: connect_def create_user_def io_defs double_def fresh_def init_def)

text \<open>
  C10. In the fallback path (a non-empty stored identifier \<open>uid\<close> that \<^verbatim>\<open>get_user\<close>
  rejects), when \<^verbatim>\<open>add_user\<close> returns \<open>nid\<close> and \<^verbatim>\<open>get_user\<close> of \<open>nid\<close> raises,
  \<^verbatim>\<open>connect\<close> returns \<^verbatim>\<open>False\<close> and leaves the manager unconnected, but with
  \<open>nid\<close> as its stored identifier; \<^verbatim>\<open>get_user_id\<close> still returns \<^verbatim>\<open>None\<close>. A later
  \<^verbatim>\<open>connect\<close> on that manager (state \<open>w2\<close>) whose ping succeeds calls \<^verbatim>\<open>get_user\<close> with
  \<open>nid\<close>, not with \<open>uid\<close>, right after the ping. (\<open>nid\<close> is a non-empty string, as every
  identifier the service creates.)
\<close>

theorem failed_fallback_overwrites_identifier:
  assumes "\<not> connected (self w)" and "user_id (self w) = Some uid" and "uid \<noteq> []"
    and "ping c (remote w) = (Inr True, r1)"
    and "get_user c uid r1 = (Inl e1, r2)"
    and "add_user c source_marker r2 = (Inr nid, r3)"
    and "get_user c nid r3 = (Inl e3, r4)"
    and "nid \<noteq> []"
    and "self w2 = (self w)\<lparr>user_id := Some nid\<rparr>"
    and "ping c (remote w2) = (Inr True, r5)"
    and "get_user c nid r5 = (g, r6)"
  shows "(\<exists>w'. connect c w = (Inr False, w')
          \<and> self w' = (self w)\<lparr>user_id := Some nid\<rparr>
          \<and> \<not> connected (self w')
          \<and> get_user_id w' = (Inr None, w'))
       \<and> (\<exists>rest. trace (snd (connect c w2)) =
             trace w2 @ [Call Ping (Inr (VBool True)), Call (GetUser nid) (map_sum id VUser g)] @ rest)"
  using assms
  by (auto simp add: connect_def create_user_def get_user_id_def io_defs Let_def split: sum.splits prod.splits)

theorem failed_fallback_overwrites_identifier_witness:
  "connect (double True [] ''u2'' True) (fresh (Some ''u1'') 0) =
     (Inr False,
      \<lparr>self = \<lparr>user = None, user_id = Some ''u2'', connected = False\<rparr>, remote = 4,
       trace =
         [Call Ping (Inr (VBool True)),
          Call (GetUser ''u1'') (Inl (Exception ''user not found'')),
          Log WARNING ''User ID %s not found, creating new user: %s''
            [ArgStr ''u1'', ArgExn (Exception ''user not found'')],
          Call (AddUser source_marker) (Inr (VStr ''u2'')),
          Call (GetUser ''u2'') (Inl (Exception ''user not found'')),
          Log ERROR ''Error connecting to Memobase: %s''
            [ArgExn (Exception ''user not found'')]]\<rparr>)
 \<and> take 2 (trace (snd (connect (double True [] ''u2'' True)
       \<lparr>self = \<lparr>user = None, user_id = Some ''u2'', connected = False\<rparr>, remote = 4,
        trace = []\<rparr>))) =
     [Call Ping (Inr (VBool True)), Call (GetUser ''u2'') (Inl (Exception ''user not found''))]"
  using failed_fallback_overwrites_identifier [where w = "fresh (Some ''u1'') 0"
      and uid = "''u1''" and c = "double True [] ''u2'' True" and ?r1.0 = 1
      and ?e1.0 = "Exception ''user not found''" and ?r2.0 = 2 and nid = "''u2''"
      and ?r3.0 = 3 and ?e3.0 = "Exception ''user not found''" and ?r4.0 = 4
      and ?w2.0 = "\<lparr>self = \<lparr>user = None, user_id = Some ''u2'', connected = False\<rparr>,
        remote = 4, trace = []\<rparr>"
      and ?r5.0 = 5 and g = "Inl (Exception ''user not found'')" and ?r6.0 = 6]
  by (simp add: connect_def create_user_def io_defs double_def fresh_def init_def)


section \<open>Failures never reach the caller\<close>

text \<open>
  C3. From any state and against any remote service, \<^verbatim>\<open>connect\<close>,
  \<^verbatim>\<open>store_conversation\<close>, \<^verbatim>\<open>get_user_profile\<close> and \<^verbatim>\<open>flush_buffer\<close> return a value
  (a boolean, or a string, never \<^verbatim>\<open>None\<close>) and never raise. Every remote call that
  raised is followed at once by a warning or an error that carries the exception. When the
  last remote call of the method raised, the method returns its sentinel (\<^verbatim>\<open>False\<close> or the
  empty string). Whenever \<^verbatim>\<open>connect\<close> returns \<^verbatim>\<open>False\<close>, the connected flag was false and
  still is.
\<close>

theorem no_exception_escapes:
  "(\<exists>b w' evs. connect c w = (Inr b, w') \<and> trace w' = trace w @ evs \<and> failures_logged evs
       \<and> (raised_last evs \<longrightarrow> \<not> b) \<and> (\<not> b \<longrightarrow> \<not> connected (self w) \<and> \<not> connected (self w')))
 \<and> (\<exists>b w' evs. store_conversation c um ar an w = (Inr b, w') \<and> trace w' = trace w @ evs
       \<and> failures_logged evs \<and> (raised_last evs \<longrightarrow> \<not> b))
 \<and> (\<exists>s w' evs. get_user_profile c mt pt w = (Inr (Some s), w') \<and> trace w' = trace w @ evs
       \<and> failures_logged evs \<and> (raised_last evs \<longrightarrow> s = []))
 \<and> (\<exists>b w' evs. flush_buffer c w = (Inr b, w') \<and> trace w' = trace w @ evs
       \<and> failures_logged evs \<and> (raised_last evs \<longrightarrow> \<not> b))"
proof (intro conjI)
  from connect_summary [of c w] obtain b w' evs where
    "connect c w = (Inr b, w')" "trace w' = trace w @ evs" "failures_logged evs"
    "raised_last evs \<longrightarrow> \<not> b" "connected (self w') = b" "connected (self w) \<longrightarrow> w' = w"
    by blast
  then show "\<exists>b w' evs. connect c w = (Inr b, w') \<and> trace w' = trace w @ evs \<and> failures_logged evs
       \<and> (raised_last evs \<longrightarrow> \<not> b) \<and> (\<not> b \<longrightarrow> \<not> connected (self w) \<and> \<not> connected (self w'))"
    by (intro exI [of _ b] exI [of _ w'] exI [of _ evs]) auto
next
  from store_summary [of c um ar an w] obtain b w' evs where
    "store_conversation c um ar an w = (Inr b, w')" "trace w' = trace w @ evs"
    "failures_logged evs" "raised_last evs \<longrightarrow> \<not> b"
    by blast
  then show "\<exists>b w' evs. store_conversation c um ar an w = (Inr b, w') \<and> trace w' = trace w @ evs
       \<and> failures_logged evs \<and> (raised_last evs \<longrightarrow> \<not> b)"
    by (intro exI [of _ b] exI [of _ w'] exI [of _ evs]) simp
next
  from profile_summary [of c mt pt w] obtain b w' evs where
    "get_user_profile c mt pt w = (Inr b, w')" "trace w' = trace w @ evs"
    "failures_logged evs" "raised_last evs \<longrightarrow> b = Some []" "b \<noteq> None"
    by blast
  then show "\<exists>s w' evs. get_user_profile c mt pt w = (Inr (Some s), w') \<and> trace w' = trace w @ evs
       \<and> failures_logged evs \<and> (raised_last evs \<longrightarrow> s = [])"
    by (cases b) auto
next
  from flush_summary [of c w] obtain b w' evs where
    "flush_buffer c w = (Inr b, w')" "trace w' = trace w @ evs"
    "failures_logged evs" "raised_last evs \<longrightarrow> \<not> b"
    by blast
  then show "\<exists>b w' evs. flush_buffer c w = (Inr b, w') \<and> trace w' = trace w @ evs
       \<and> failures_logged evs \<and> (raised_last evs \<longrightarrow> \<not> b)"
    by (intro exI [of _ b] exI [of _ w'] exI [of _ evs]) simp
qed

theorem no_exception_escapes_witness:
  "connect (double True [] ''u2'' True) (fresh (Some ''u1'') 0) =
     (Inr False,
      \<lparr>self = \<lparr>user = None, user_id = Some ''u2'', connected = False\<rparr>, remote = 4,
       trace =
         [Call Ping (Inr (VBool True)),
          Call (GetUser ''u1'') (Inl (Exception ''user not found'')),
          Log WARNING ''User ID %s not found, creating new user: %s''
            [ArgStr ''u1'', ArgExn (Exception ''user not found'')],
          Call (AddUser source_marker) (Inr (VStr ''u2'')),
          Call (GetUser ''u2'') (Inl (Exception ''user not found'')),
          Log ERROR ''Error connecting to Memobase: %s''
            [ArgExn (Exception ''user not found'')]]\<rparr>)
 \<and> store_conversation (double True [''u1''] ''u2'' False) ''hi'' ''hello'' ''Bot'' (session ''u1'') =
     (Inr False,
      (session ''u1'')\<lparr>remote := 1, trace :=
         [Call (Insert ''u1'' (ChatBlob [[(''role'', ''user''), (''content'', ''hi'')],
            [(''role'', ''assistant''), (''content'', ''hello''), (''alias'', ''Bot'')]]))
            (Inl (Exception ''insert failed'')),
          Log ERROR ''Error storing conversation in Memobase: %s''
            [ArgExn (Exception ''insert failed'')]]\<rparr>)
 \<and> flush_buffer (double True [''u1''] ''u2'' False) (session ''u1'') =
     (Inr False,
      (session ''u1'')\<lparr>remote := 1, trace :=
         [Call (Flush ''u1'') (Inl (Exception ''flush failed'')),
          Log ERROR ''Error flushing Memobase buffer: %s''
            [ArgExn (Exception ''flush failed'')]]\<rparr>)"
  using no_exception_escapes [of "double True [] ''u2'' True" "fresh (Some ''u1'') 0"]
  by (simp add: connect_def create_user_def store_conversation_def flush_buffer_def
      guard_connected io_defs double_def fresh_def init_def session_def source_marker_def)

section \<open>A service that does not answer the ping\<close>

text \<open>
  C4. On an unconnected manager, when \<^verbatim>\<open>ping\<close> returns \<^verbatim>\<open>False\<close>, each of
  \<^verbatim>\<open>connect\<close>, \<^verbatim>\<open>store_conversation\<close>, \<^verbatim>\<open>get_user_profile\<close> and \<^verbatim>\<open>flush_buffer\<close>
  returns its sentinel (\<^verbatim>\<open>False\<close>, \<^verbatim>\<open>False\<close>, the empty string, \<^verbatim>\<open>False\<close>), does not
  raise, calls no remote method but that one \<^verbatim>\<open>ping\<close>, logs one error and leaves the
  manager as it was. And while \<^verbatim>\<open>ping\<close> keeps returning \<^verbatim>\<open>False\<close>, any sequence of
  method calls returns only sentinels and calls no remote method but \<^verbatim>\<open>ping\<close>.
\<close>

theorem ping_false_isolation:
  "(\<not> connected (self w) \<and> ping c (remote w) = (Inr False, r1) \<longrightarrow>
     (let w' = w\<lparr>remote := r1, trace := trace w @
                 [Call Ping (Inr (VBool False)), Log ERROR ''Failed to connect to Memobase'' []]\<rparr>
      in connect c w = (Inr False, w')
       \<and> store_conversation c um ar an w = (Inr False, w')
       \<and> get_user_profile c mt pt w = (Inr (Some []), w')
       \<and> flush_buffer c w = (Inr False, w')))
 \<and> (\<not> connected (self w) \<and> (\<forall>r. fst (ping c r) = Inr False) \<longrightarrow>
     (\<exists>w' evs. run_ops c xs w = (map (\<lambda>x. Inr (failure_sentinel x)) xs, w')
        \<and> self w' = self w \<and> trace w' = trace w @ evs \<and> only_pings evs))"
proof (intro conjI impI)
  assume "\<not> connected (self w) \<and> ping c (remote w) = (Inr False, r1)"
  then show "let w' = w\<lparr>remote := r1, trace := trace w @
                 [Call Ping (Inr (VBool False)), Log ERROR ''Failed to connect to Memobase'' []]\<rparr>
      in connect c w = (Inr False, w')
       \<and> store_conversation c um ar an w = (Inr False, w')
       \<and> get_user_profile c mt pt w = (Inr (Some []), w')
       \<and> flush_buffer c w = (Inr False, w')"
    by (simp add: store_conversation_def get_user_profile_def flush_buffer_def
        guard_unconnected connect_def io_defs Let_def)
next
  assume "\<not> connected (self w) \<and> (\<forall>r. fst (ping c r) = Inr False)"
  then show "\<exists>w' evs. run_ops c xs w = (map (\<lambda>x. Inr (failure_sentinel x)) xs, w')
        \<and> self w' = self w \<and> trace w' = trace w @ evs \<and> only_pings evs"
    using run_ops_ping_false [of c w xs] by blast
qed

theorem ping_false_isolation_witness:
  "run_ops (double False [''u1''] ''u2'' True)
     [Connect, StoreConversation ''hi'' ''hello'' ''Bot'', GetUserProfile 500 None, FlushBuffer]
     (fresh None 0) =
   ([Inr (RBool False), Inr (RBool False), Inr (RStr (Some [])), Inr (RBool False)],
    \<lparr>self = init None, remote = 4,
     trace =
       [Call Ping (Inr (VBool False)), Log ERROR ''Failed to connect to Memobase'' [],
        Call Ping (Inr (VBool False)), Log ERROR ''Failed to connect to Memobase'' [],
        Call Ping (Inr (VBool False)), Log ERROR ''Failed to connect to Memobase'' [],
        Call Ping (Inr (VBool False)), Log ERROR ''Failed to connect to Memobase'' []]\<rparr>)"
proof -
  let ?c = "double False [''u1''] ''u2'' True"
  let ?err = "Log ERROR ''Failed to connect to Memobase'' []"
  let ?w = "\<lambda>n evs. \<lparr>self = init None, remote = n, trace = evs\<rparr> :: (nat, string) world"
  have p: "ping ?c n = (Inr False, Suc n)" for n
    by (simp add: double_def)
  have u: "\<not> connected (self (?w n evs))" for n evs
    by (simp add: init_def)
  have step: "connect ?c (?w n evs) =
        (Inr False, ?w (Suc n) (evs @ [Call Ping (Inr (VBool False)), ?err]))
      \<and> store_conversation ?c um ar an (?w n evs) =
        (Inr False, ?w (Suc n) (evs @ [Call Ping (Inr (VBool False)), ?err]))
      \<and> get_user_profile ?c mt pt (?w n evs) =
        (Inr (Some []), ?w (Suc n) (evs @ [Call Ping (Inr (VBool False)), ?err]))
      \<and> flush_buffer ?c (?w n evs) =
        (Inr False, ?w (Suc n) (evs @ [Call Ping (Inr (VBool False)), ?err]))"
    for n evs um ar an mt pt
    using ping_false_isolation [of "?w n evs" ?c "Suc n" um ar an mt pt] p u
    by (simp add: Let_def)
  show ?thesis
    by (simp add: fresh_def returning_def io_bind_def io_return_def step
        numeral_eq_Suc)
qed


section \<open>connect is idempotent\<close>

text \<open>
  C5. On a connected manager \<^verbatim>\<open>connect\<close> returns \<^verbatim>\<open>True\<close> and changes nothing: no
  remote call, no log. A \<^verbatim>\<open>connect\<close> that returned \<^verbatim>\<open>True\<close> leaves the manager
  connected, so a second \<^verbatim>\<open>connect\<close> right after it returns \<^verbatim>\<open>True\<close> with the state
  and the trace of the first: the ping and identity sequence ran once.
\<close>

theorem connect_idempotent:
  "(connected (self w) \<longrightarrow> connect c w = (Inr True, w))
 \<and> (connect c w = (Inr True, w1) \<longrightarrow>
      connected (self w1) \<and> connect c w1 = (Inr True, w1)
    \<and> run_ops c [Connect, Connect] w = ([Inr (RBool True), Inr (RBool True)], w1))"
proof -
  have "connected (self w1)" if "connect c w = (Inr True, w1)"
    using that connect_summary [of c w] by auto
  then show ?thesis
    by (auto simp: connect_connected returning_def io_bind_def io_return_def)
qed

theorem connect_idempotent_witness:
  "run_ops (double True [''u1''] ''u2'' True) [Connect, Connect] (fresh (Some ''u1'') 0) =
     ([Inr (RBool True), Inr (RBool True)],
      \<lparr>self = \<lparr>user = Some ''u1'', user_id = Some ''u1'', connected = True\<rparr>, remote = 2,
       trace =
         [Call Ping (Inr (VBool True)),
          Call (GetUser ''u1'') (Inr (VUser ''u1'')),
          Log INFO ''Connected to existing Memobase user: %s'' [ArgStr ''u1'']]\<rparr>)"
proof -
  let ?c = "double True [''u1''] ''u2'' True"
  let ?w1 = "\<lparr>self = \<lparr>user = Some ''u1'', user_id = Some ''u1'', connected = True\<rparr>,
       remote = 2,
       trace =
         [Call Ping (Inr (VBool True)),
          Call (GetUser ''u1'') (Inr (VUser ''u1'')),
          Log INFO ''Connected to existing Memobase user: %s'' [ArgStr ''u1'']]\<rparr>
       :: (nat, string) world"
  have "connect ?c (fresh (Some ''u1'') 0) = (Inr True, ?w1)"
    by (simp add: connect_def io_defs double_def fresh_def init_def)
  with connect_idempotent [of "fresh (Some ''u1'') 0" ?c ?w1] show ?thesis
    by simp
qed


section \<open>get_user_id\<close>

text \<open>
  C6. \<^verbatim>\<open>get_user_id\<close> returns the stored identifier when the connected flag is true and
  \<^verbatim>\<open>None\<close> otherwise, and leaves the manager, the remote service and the trace untouched
  (no remote call, no connection attempt). It returns \<^verbatim>\<open>None\<close> on a new manager and after
  a \<^verbatim>\<open>connect\<close> that returned \<^verbatim>\<open>False\<close>; after a \<^verbatim>\<open>connect\<close> that returned \<^verbatim>\<open>True\<close>
  it returns the identifier of the last \<^verbatim>\<open>get_user\<close> call that succeeded.
\<close>

theorem get_user_id_gated:
  "get_user_id w = (Inr (if connected (self w) then user_id (self w) else None), w)
 \<and> get_user_id (fresh uid0 r) = (Inr None, fresh uid0 r)
 \<and> (connect c w = (Inr False, w') \<longrightarrow> get_user_id w' = (Inr None, w'))
 \<and> (\<not> connected (self w) \<and> connect c w = (Inr True, w') \<longrightarrow>
      (\<exists>evs uid h. trace w' = trace w @ evs \<and> last_fetched evs = Some (uid, h)
         \<and> get_user_id w' = (Inr (Some uid), w')))"
proof (intro conjI impI)
  show "get_user_id w = (Inr (if connected (self w) then user_id (self w) else None), w)"
    by (rule get_user_id_eq)
  show "get_user_id (fresh uid0 r) = (Inr None, fresh uid0 r)"
    by (simp add: get_user_id_eq fresh_def init_def)
  show "get_user_id w' = (Inr None, w')" if "connect c w = (Inr False, w')"
    using that connect_summary [of c w] by (auto simp: get_user_id_eq)
  show "\<exists>evs uid h. trace w' = trace w @ evs \<and> last_fetched evs = Some (uid, h)
         \<and> get_user_id w' = (Inr (Some uid), w')"
    if "\<not> connected (self w) \<and> connect c w = (Inr True, w')"
    using that connect_summary [of c w] by (auto simp: get_user_id_eq)
qed

theorem get_user_id_gated_witness:
  "run_ops (double True [''u1''] ''u1'' True) [GetUserId, Connect, GetUserId] (fresh None 0) =
     ([Inr (RId None), Inr (RBool True), Inr (RId (Some ''u1''))],
      \<lparr>self = \<lparr>user = Some ''u1'', user_id = Some ''u1'', connected = True\<rparr>, remote = 3,
       trace =
         [Call Ping (Inr (VBool True)),
          Call (AddUser source_marker) (Inr (VStr ''u1'')),
          Call (GetUser ''u1'') (Inr (VUser ''u1'')),
          Log INFO ''Created new Memobase user: %s'' [ArgStr ''u1'']]\<rparr>)"
  using get_user_id_gated [where w = "fresh None 0" and ?uid0.0 = None and r = 0
      and c = "double True [''u1''] ''u1'' True"
      and w' = "\<lparr>self = \<lparr>user = Some ''u1'', user_id = Some ''u1'', connected = True\<rparr>,
        remote = 3,
        trace =
          [Call Ping (Inr (VBool True)),
           Call (AddUser source_marker) (Inr (VStr ''u1'')),
           Call (GetUser ''u1'') (Inr (VUser ''u1'')),
           Log INFO ''Created new Memobase user: %s'' [ArgStr ''u1'']]\<rparr>"]
  by (simp add: returning_def get_user_id_def connect_def create_user_def io_defs double_def
      fresh_def init_def)

section \<open>store_conversation\<close>

text \<open>
  C7. On a connected manager with user object \<open>h\<close>, \<^verbatim>\<open>store_conversation\<close> makes exactly
  one remote call: \<^verbatim>\<open>insert\<close> on \<open>h\<close> with one exchange of two entries, the first with
  role \<^verbatim>\<open>user\<close> and the user message as content, the second with role
  \<^verbatim>\<open>assistant\<close>, the assistant response as content and the assistant name as alias. It
  returns \<^verbatim>\<open>True\<close> when \<^verbatim>\<open>insert\<close> returns and \<^verbatim>\<open>False\<close> (after an error log) when it
  raises. Without a name the alias is \<^verbatim>\<open>Assistant\<close>.
\<close>

theorem store_conversation_exchange:
  assumes "connected (self w)" and "user (self w) = Some h"
    and "blob = ChatBlob [[(''role'', ''user''), (''content'', um)],
                          [(''role'', ''assistant''), (''content'', ar), (''alias'', an)]]"
    and "user_insert c h blob (remote w) = (res, r1)"
  shows "store_conversation c um ar an w =
     (case res of
        Inr u \<Rightarrow> (Inr True, w\<lparr>remote := r1, trace := trace w @
                   [Call (Insert h blob) (Inr VNone), Log DEBUG ''Stored conversation in Memobase'' []]\<rparr>)
      | Inl e \<Rightarrow> (Inr False, w\<lparr>remote := r1, trace := trace w @
                   [Call (Insert h blob) (Inl e),
                    Log ERROR ''Error storing conversation in Memobase: %s'' [ArgExn e]]\<rparr>))
    \<and> store_conversation_default c um ar = store_conversation c um ar ''Assistant''"
  using assms
  by (simp add: store_conversation_def store_conversation_default_def guard_connected io_defs Let_def split: sum.splits)

theorem store_conversation_exchange_witness:
  "store_conversation (double True [''u1''] ''u2'' True) ''hi'' ''hello'' ''Bot'' (session ''u1'') =
     (Inr True,
      (session ''u1'')\<lparr>remote := 1, trace :=
         [Call (Insert ''u1'' (ChatBlob
            [[(''role'', ''user''), (''content'', ''hi'')],
             [(''role'', ''assistant''), (''content'', ''hello''), (''alias'', ''Bot'')]]))
            (Inr VNone),
          Log DEBUG ''Stored conversation in Memobase'' []]\<rparr>)"
  using store_conversation_exchange [where w = "session ''u1''" and h = "''u1''"
      and c = "double True [''u1''] ''u2'' True" and um = "''hi''" and ar = "''hello''"
      and an = "''Bot''" and res = "Inr ()" and ?r1.0 = 1,
      OF _ _ refl]
  by (simp add: double_def session_def)


section \<open>The user object of a connected manager\<close>

text \<open>
  C8. For every method call, from any state: if a connected manager has a user object
  before the call, it has one after it; a connected manager stays connected and keeps its
  user object; a user object is never reset to \<^verbatim>\<open>None\<close>; and when the call sets the
  connected flag, the user object is the one the last successful \<^verbatim>\<open>get_user\<close> of that
  call returned. So after any sequence of method calls on a new manager, a connected
  manager has a user object, and once a prefix of the sequence has connected it, it stays
  connected with the same user object.
\<close>

theorem handle_invariant:
  "(run_op c x w = (res, w') \<longrightarrow>
      (handle_inv (self w) \<longrightarrow> handle_inv (self w'))
    \<and> (connected (self w) \<longrightarrow> connected (self w') \<and> user (self w') = user (self w))
    \<and> (user (self w) \<noteq> None \<longrightarrow> user (self w') \<noteq> None)
    \<and> (\<not> connected (self w) \<and> connected (self w') \<longrightarrow>
         (\<exists>evs uid h. trace w' = trace w @ evs \<and> last_fetched evs = Some (uid, h)
            \<and> user (self w') = Some h)))
 \<and> handle_inv (self (snd (run_ops c xs (fresh uid0 r))))
 \<and> (connected (self (snd (run_ops c xs (fresh uid0 r)))) \<longrightarrow>
      connected (self (snd (run_ops c (xs @ ys) (fresh uid0 r))))
    \<and> user (self (snd (run_ops c (xs @ ys) (fresh uid0 r)))) =
        user (self (snd (run_ops c xs (fresh uid0 r)))))"
proof (intro conjI)
  show "run_op c x w = (res, w') \<longrightarrow>
      (handle_inv (self w) \<longrightarrow> handle_inv (self w'))
    \<and> (connected (self w) \<longrightarrow> connected (self w') \<and> user (self w') = user (self w))
    \<and> (user (self w) \<noteq> None \<longrightarrow> user (self w') \<noteq> None)
    \<and> (\<not> connected (self w) \<and> connected (self w') \<longrightarrow>
         (\<exists>evs uid h. trace w' = trace w @ evs \<and> last_fetched evs = Some (uid, h)
            \<and> user (self w') = Some h))"
    using run_op_summary [of c x w] by (auto simp: handle_inv_def)
  have "handle_inv (self (fresh uid0 r))"
    by (simp add: handle_inv_def fresh_def init_def)
  then show "handle_inv (self (snd (run_ops c xs (fresh uid0 r))))"
    by (rule run_ops_inv)
  show "connected (self (snd (run_ops c xs (fresh uid0 r)))) \<longrightarrow>
      connected (self (snd (run_ops c (xs @ ys) (fresh uid0 r))))
    \<and> user (self (snd (run_ops c (xs @ ys) (fresh uid0 r)))) =
        user (self (snd (run_ops c xs (fresh uid0 r))))"
  proof
    assume cn: "connected (self (snd (run_ops c xs (fresh uid0 r))))"
    then have "self (snd (run_ops c ys (snd (run_ops c xs (fresh uid0 r))))) =
        self (snd (run_ops c xs (fresh uid0 r)))"
      by (rule run_ops_connected)
    with cn show "connected (self (snd (run_ops c (xs @ ys) (fresh uid0 r))))
       \<and> user (self (snd (run_ops c (xs @ ys) (fresh uid0 r)))) =
        user (self (snd (run_ops c xs (fresh uid0 r))))"
      by (simp only: snd_run_ops_append)
  qed
qed

theorem handle_invariant_witness:
  "self (snd (run_ops (double True [''u1''] ''u1'' True) [FlushBuffer] (fresh None 0))) =
     \<lparr>user = Some ''u1'', user_id = Some ''u1'', connected = True\<rparr>
 \<and> self (snd (run_ops (double True [''u1''] ''u1'' True)
       ([FlushBuffer] @ [StoreConversation ''hi'' ''hello'' ''Bot'']) (fresh None 0))) =
     \<lparr>user = Some ''u1'', user_id = Some ''u1'', connected = True\<rparr>
 \<and> handle_inv (self (snd (run_ops (double True [''u1''] ''u1'' True) [FlushBuffer]
       (fresh None 0))))"
  using handle_invariant [where c = "double True [''u1''] ''u1'' True" and xs = "[FlushBuffer]"
      and ?uid0.0 = None and r = 0 and ys = "[StoreConversation ''hi'' ''hello'' ''Bot'']"
      and x = FlushBuffer and w = "fresh None 0"
      and res = "Inr (RBool True)"
      and w' = "\<lparr>self = \<lparr>user = Some ''u1'', user_id = Some ''u1'', connected = True\<rparr>,
        remote = 4,
        trace =
          [Call Ping (Inr (VBool True)),
           Call (AddUser source_marker) (Inr (VStr ''u1'')),
           Call (GetUser ''u1'') (Inr (VUser ''u1'')),
           Log INFO ''Created new Memobase user: %s'' [ArgStr ''u1''],
           Call (Flush ''u1'') (Inr VNone),
           Log INFO ''Flushed Memobase buffer for user: %s'' [ArgStr ''u1'']]\<rparr>"]
  by (simp add: handle_inv_def returning_def flush_buffer_def store_conversation_def
      not_connected_and_not_connect_def connect_def create_user_def arg_id_def io_defs
      double_def fresh_def init_def)

section \<open>Callers that contend for the connection lock\<close>

text \<open>
  The first test of the flag adds nothing to the block under the lock: run on the same
  state, \<^verbatim>\<open>connect\<close> and the block do the same.
\<close>

lemma connect_unlocked_check:
  "connect c = io_bind (gets connected) (\<lambda>cn. if cn then io_return True else connect_locked c)"
  by (rule ext) (simp add: connect_def connect_locked_def io_defs)

lemma connect_locked_eq: "connect_locked c w = connect c w"
  by (simp add: connect_def connect_locked_def io_defs)

lemma pings_append: "pings (xs @ ys) = pings xs + pings ys"
  by (simp add: pings_def)

lemma connect_one_ping:
  "\<not> connected (self w) \<Longrightarrow>
   \<exists>b w' evs. connect c w = (Inr b, w') \<and> trace w' = trace w @ evs \<and> pings evs = 1
     \<and> connected (self w') = b"
  by (auto simp: connect_def create_user_def io_defs pings_def
      split: prod.splits sum.splits option.splits if_splits)

lemma contend_connected:
  "connected (self w) \<Longrightarrow> contend c n w = (replicate n (Inr True), w)"
  by (induction n) (simp_all add: connect_locked_eq connect_connected)

lemma contend_shape:
  "\<not> connected (self w) \<Longrightarrow>
   \<exists>k w' evs. k \<le> n
     \<and> contend c n w = (replicate k (Inr False) @ replicate (n - k) (Inr True), w')
     \<and> trace w' = trace w @ evs
     \<and> pings evs = (if k < n then Suc k else k)
     \<and> connected (self w') = (k < n)"
proof (induction n arbitrary: w)
  case 0
  then show ?case by (simp add: pings_def)
next
  case (Suc n)
  from connect_one_ping [OF Suc.prems, of c] obtain b w1 evs1 where
    c1: "connect c w = (Inr b, w1)" "trace w1 = trace w @ evs1" "pings evs1 = 1"
      "connected (self w1) = b"
    by blast
  show ?case
  proof (cases b)
    case True
    with c1 have "contend c (Suc n) w = (replicate (Suc n) (Inr True), w1)"
      by (simp add: connect_locked_eq contend_connected)
    with c1 True show ?thesis
      by (intro exI [of _ 0] exI [of _ w1] exI [of _ evs1]) simp
  next
    case False
    with c1 have "\<not> connected (self w1)" by simp
    from Suc.IH [OF this] obtain k w2 evs2 where
      c2: "k \<le> n"
        "contend c n w1 = (replicate k (Inr False) @ replicate (n - k) (Inr True), w2)"
        "trace w2 = trace w1 @ evs2" "pings evs2 = (if k < n then Suc k else k)"
        "connected (self w2) = (k < n)"
      by blast
    from c1 c2 False show ?thesis
      by (intro exI [of _ "Suc k"] exI [of _ w2] exI [of _ "evs1 @ evs2"])
        (simp add: connect_locked_eq pings_append)
  qed
qed

lemma contend_ping_false:
  assumes "\<forall>r. fst (ping c r) = Inr False"
  shows "\<not> connected (self w) \<Longrightarrow>
     \<exists>w' evs. contend c n w = (replicate n (Inr False), w') \<and> self w' = self w
       \<and> trace w' = trace w @ evs \<and> only_pings evs \<and> pings evs = n"
proof (induction n arbitrary: w)
  case 0
  then show ?case by (simp add: only_pings_def pings_def)
next
  case (Suc n)
  obtain r1 where p: "ping c (remote w) = (Inr False, r1)"
    using assms by (cases "ping c (remote w)") (metis fst_conv)
  let ?w1 = "w\<lparr>remote := r1, trace := trace w @
         [Call Ping (Inr (VBool False)), Log ERROR ''Failed to connect to Memobase'' []]\<rparr>"
  from Suc.prems p have cn: "connect c w = (Inr False, ?w1)"
    by (simp add: connect_def io_defs)
  from Suc.prems have "\<not> connected (self ?w1)" by simp
  from Suc.IH [OF this] obtain w2 evs2 where
    b: "contend c n ?w1 = (replicate n (Inr False), w2)" "self w2 = self ?w1"
      "trace w2 = trace ?w1 @ evs2" "only_pings evs2" "pings evs2 = n"
    by blast
  from cn b show ?case
    by (intro exI [of _ w2]
        exI [of _ "[Call Ping (Inr (VBool False)), Log ERROR ''Failed to connect to Memobase'' []]
          @ evs2"])
      (simp add: connect_locked_eq only_pings_def pings_def)
qed

text \<open>
  C9, as amended. When \<open>n\<close> callers reach \<^verbatim>\<open>connect\<close> together on an unconnected
  manager, the lock runs their connect sequences one at a time, and:

  \<^item> if the first caller's sequence succeeds, that sequence is the only one: every caller
    returns \<^verbatim>\<open>True\<close>, the state and the trace are those of the first caller's
    \<^verbatim>\<open>connect\<close> alone, and they hold exactly one \<^verbatim>\<open>ping\<close>;

  \<^item> a failure is not shared: against a service whose \<^verbatim>\<open>ping\<close> keeps returning
    \<^verbatim>\<open>False\<close>, each of the \<open>n\<close> callers runs its own sequence, so there are \<open>n\<close> pings
    (and no other remote call), every caller returns \<^verbatim>\<open>False\<close> and the manager is
    unchanged;

  \<^item> in general the first \<open>k\<close> callers fail, each with a ping of its own, the next one
    connects with one more ping, and the callers after it return \<^verbatim>\<open>True\<close> without a
    ping: there are \<open>k + 1\<close> pings when some caller connected and \<open>n\<close> when none did.
\<close>

theorem contend_connect_sequences:
  "(\<not> connected (self w) \<and> connect c w = (Inr True, w1) \<longrightarrow>
      contend c (Suc n) w = (replicate (Suc n) (Inr True), w1)
    \<and> (\<exists>evs. trace w1 = trace w @ evs \<and> pings evs = 1))
 \<and> (\<not> connected (self w) \<and> (\<forall>r. fst (ping c r) = Inr False) \<longrightarrow>
      (\<exists>w' evs. contend c n w = (replicate n (Inr False), w') \<and> self w' = self w
         \<and> trace w' = trace w @ evs \<and> only_pings evs \<and> pings evs = n))
 \<and> (\<not> connected (self w) \<longrightarrow>
      (\<exists>k w' evs. k \<le> n
         \<and> contend c n w = (replicate k (Inr False) @ replicate (n - k) (Inr True), w')
         \<and> trace w' = trace w @ evs
         \<and> pings evs = (if k < n then Suc k else k)
         \<and> connected (self w') = (k < n)))"
proof (intro conjI impI)
  assume a: "\<not> connected (self w) \<and> connect c w = (Inr True, w1)"
  with connect_one_ping [of w c] have "connected (self w1)"
    and ev: "\<exists>evs. trace w1 = trace w @ evs \<and> pings evs = 1"
    by auto
  with a show "contend c (Suc n) w = (replicate (Suc n) (Inr True), w1)"
    by (simp add: connect_locked_eq contend_connected)
  from ev show "\<exists>evs. trace w1 = trace w @ evs \<and> pings evs = 1" .
next
  assume "\<not> connected (self w) \<and> (\<forall>r. fst (ping c r) = Inr False)"
  then show "\<exists>w' evs. contend c n w = (replicate n (Inr False), w') \<and> self w' = self w
         \<and> trace w' = trace w @ evs \<and> only_pings evs \<and> pings evs = n"
    using contend_ping_false [of c w n] by blast
next
  assume "\<not> connected (self w)"
  then show "\<exists>k w' evs. k \<le> n
         \<and> contend c n w = (replicate k (Inr False) @ replicate (n - k) (Inr True), w')
         \<and> trace w' = trace w @ evs
         \<and> pings evs = (if k < n then Suc k else k)
         \<and> connected (self w') = (k < n)"
    by (rule contend_shape)
qed

text \<open>
  Three callers and a service that knows \<^verbatim>\<open>"u1"\<close>: one ping and one \<^verbatim>\<open>get_user\<close> for the
  three of them. The same three callers and a service whose ping returns \<^verbatim>\<open>False\<close>:
  three pings.
\<close>

theorem contend_connect_sequences_witness:
  "contend (double True [''u1''] ''u2'' True) 3 (fresh (Some ''u1'') 0) =
     ([Inr True, Inr True, Inr True],
      \<lparr>self = \<lparr>user = Some ''u1'', user_id = Some ''u1'', connected = True\<rparr>, remote = 2,
       trace =
         [Call Ping (Inr (VBool True)),
          Call (GetUser ''u1'') (Inr (VUser ''u1'')),
          Log INFO ''Connected to existing Memobase user: %s'' [ArgStr ''u1'']]\<rparr>)
 \<and> pings (trace (snd (contend (double True [''u1''] ''u2'' True) 3 (fresh (Some ''u1'') 0)))) = 1
 \<and> fst (contend (double False [''u1''] ''u2'' True) 3 (fresh (Some ''u1'') 0)) =
     [Inr False, Inr False, Inr False]
 \<and> self (snd (contend (double False [''u1''] ''u2'' True) 3 (fresh (Some ''u1'') 0))) =
     init (Some ''u1'')
 \<and> pings (trace (snd (contend (double False [''u1''] ''u2'' True) 3 (fresh (Some ''u1'') 0)))) = 3"
  using contend_connect_sequences [of "fresh (Some ''u1'') 0" "double True [''u1''] ''u2'' True"
      "\<lparr>self = \<lparr>user = Some ''u1'', user_id = Some ''u1'', connected = True\<rparr>, remote = 2,
        trace =
          [Call Ping (Inr (VBool True)),
           Call (GetUser ''u1'') (Inr (VUser ''u1'')),
           Log INFO ''Connected to existing Memobase user: %s'' [ArgStr ''u1'']]\<rparr>" 2]
    contend_connect_sequences [of "fresh (Some ''u1'') 0" "double False [''u1''] ''u2'' True" _ 3]
  by (simp add: numeral_3_eq_3 connect_locked_def io_defs double_def fresh_def init_def
      pings_def)

text \<open>
  C9 as the specification has it asks for exactly one connect sequence also when it fails,
  the other callers observing the same failure. Two callers and a service whose ping
  returns \<^verbatim>\<open>False\<close>: the second caller gets the lock, finds the flag still false and
  pings again.
\<close>

theorem contend_failure_counterexample:
  "contend (double False [] ''u1'' True) 2 (fresh None 0) =
     ([Inr False, Inr False],
      \<lparr>self = init None, remote = 2,
       trace =
         [Call Ping (Inr (VBool False)), Log ERROR ''Failed to connect to Memobase'' [],
          Call Ping (Inr (VBool False)), Log ERROR ''Failed to connect to Memobase'' []]\<rparr>)
 \<and> pings (trace (snd (contend (double False [] ''u1'' True) 2 (fresh None 0)))) = 2"
  by (simp add: numeral_2_eq_2 connect_locked_def io_defs double_def fresh_def init_def pings_def)

end
